theory Spec2Isabelle
  imports Main
begin

section \<open>Strings and errors\<close>

text \<open>
  A Python \<open>str\<close> is a sequence of Unicode code points, so it is modelled as a list of
  natural numbers; \<open>ascii\<close> turns a literal into such a list. The patterns of the
  program name Cyrillic letters, which is why bytes would not do.
\<close>

type_synonym ustr = "nat list"

definition ascii :: "string \<Rightarrow> ustr" where
  "ascii s = map of_char s"

text \<open>
  An exception is its class together with the place that raised it. The messages of the
  source that interpolate values carry those values.
\<close>

datatype reason =
    Name_not_valid
  | Phone_not_valid
  | Email_not_valid
  | Birthday_not_past
  | Phone_exists ustr ustr
  | Phone_not_found ustr
  | Phone_not_exist ustr ustr
  | Record_exists
  | Record_not_exist ustr
  | Unpack_not_enough nat
  | Unpack_too_many
  | Int_literal ustr
  | Year_range int
  | Month_range
  | Day_range
  | No_attribute string

datatype error = ValueError reason | KeyError reason | AttributeError reason


section \<open>The library: regular expressions\<close>

text \<open>
  The part of Python's \<open>re\<close> the patterns of the program use: anchors, character sets
  (single characters, ranges, \<open>\\d\<close> and \<open>\\s\<close>), sequence, alternation and counted
  repetition \<open>{m,n}\<close> (\<open>?\<close> is \<open>{0,1}\<close>, \<open>+\<close> is \<open>{1,}\<close>).

  \<open>\\d\<close> and \<open>\\s\<close> are given by their members below U+0660, the first decimal digit
  after ASCII (ARABIC-INDIC DIGIT ZERO): the digits 0 to 9, and the white space
  U+0009 to U+000D, U+001C to U+0020, U+0085 and U+00A0.
\<close>

definition is_digit :: "nat \<Rightarrow> bool" where
  "is_digit c = (48 \<le> c \<and> c \<le> 57)"

definition is_space :: "nat \<Rightarrow> bool" where
  "is_space c = ((9 \<le> c \<and> c \<le> 13) \<or> (28 \<le> c \<and> c \<le> 32) \<or> c = 133 \<or> c = 160)"

datatype cset_item = One nat | Range nat nat | Cat_digit | Cat_space

fun item_has :: "cset_item \<Rightarrow> nat \<Rightarrow> bool" where
  "item_has (One a) c = (c = a)"
| "item_has (Range a b) c = (a \<le> c \<and> c \<le> b)"
| "item_has Cat_digit c = is_digit c"
| "item_has Cat_space c = is_space c"

definition cset_has :: "cset_item list \<Rightarrow> nat \<Rightarrow> bool" where
  "cset_has its c = list_ex (\<lambda>it. item_has it c) its"

datatype rx =
    Bol
  | Eol
  | Cset "cset_item list"
  | Seq rx rx
  | Alt rx rx
  | Rep nat "nat option" rx

text \<open>
  A backtracking matcher in continuation-passing style: \<open>rmatch r i s k\<close> holds when
  \<open>r\<close> matches a prefix of the rest \<open>s\<close> of the subject, which starts at position
  \<open>i\<close>, in such a way that the continuation \<open>k\<close> accepts the position and the rest
  after it. \<open>$\<close> matches at the end and just before a line feed that ends the subject.

  \<open>rep f lo extra\<close> runs \<open>f\<close> \<open>lo\<close> times and then at most \<open>extra\<close> times more, the
  longer match first.
\<close>

fun rep :: "(nat \<Rightarrow> ustr \<Rightarrow> (nat \<Rightarrow> ustr \<Rightarrow> bool) \<Rightarrow> bool) \<Rightarrow> nat \<Rightarrow> nat \<Rightarrow>
    nat \<Rightarrow> ustr \<Rightarrow> (nat \<Rightarrow> ustr \<Rightarrow> bool) \<Rightarrow> bool" where
  "rep f 0 0 i s k = k i s"
| "rep f 0 (Suc x) i s k = (f i s (\<lambda>j t. rep f 0 x j t k) \<or> k i s)"
| "rep f (Suc n) x i s k = f i s (\<lambda>j t. rep f n x j t k)"

text \<open>
  An unbounded repetition gets as many extra rounds as the rest has characters: every
  repeated item of the program's patterns consumes a character.
\<close>

primrec rmatch :: "rx \<Rightarrow> nat \<Rightarrow> ustr \<Rightarrow> (nat \<Rightarrow> ustr \<Rightarrow> bool) \<Rightarrow> bool" where
  "rmatch Bol i s k = (i = 0 \<and> k i s)"
| "rmatch Eol i s k = ((s = [] \<or> s = [10]) \<and> k i s)"
| "rmatch (Cset its) i s k =
     (case s of [] \<Rightarrow> False | c # t \<Rightarrow> cset_has its c \<and> k (Suc i) t)"
| "rmatch (Seq a b) i s k = rmatch a i s (\<lambda>j t. rmatch b j t k)"
| "rmatch (Alt a b) i s k = (rmatch a i s k \<or> rmatch b i s k)"
| "rmatch (Rep lo hi a) i s k =
     rep (rmatch a) lo (case hi of None \<Rightarrow> length s | Some h \<Rightarrow> h - lo) i s k"

definition re_match :: "rx \<Rightarrow> ustr \<Rightarrow> bool" where
  "re_match r s = rmatch r 0 s (\<lambda>j t. True)"

text \<open>\<open>re.split\<close> with a pattern that is one character set: the subject is cut at every
  member of the set, and empty pieces are kept.\<close>

fun re_split :: "cset_item list \<Rightarrow> ustr \<Rightarrow> ustr list" where
  "re_split its [] = [[]]"
| "re_split its (c # s) =
     (if cset_has its c then [] # re_split its s
      else (case re_split its s of [] \<Rightarrow> [[c]] | t # ts \<Rightarrow> (c # t) # ts))"

text \<open>\<open>a in b\<close> on strings: \<open>a\<close> occurs in \<open>b\<close> as a contiguous piece.\<close>

fun starts_with :: "ustr \<Rightarrow> ustr \<Rightarrow> bool" where
  "starts_with [] s = True"
| "starts_with (c # q) [] = False"
| "starts_with (c # q) (d # s) = (c = d \<and> starts_with q s)"

fun str_in :: "ustr \<Rightarrow> ustr \<Rightarrow> bool" where
  "str_in q [] = (q = [])"
| "str_in q (c # s) = (starts_with q (c # s) \<or> str_in q s)"

text \<open>
  \<open>str.lower\<close>, given on the letters the program's own patterns admit (A to Z, the
  Cyrillic capitals U+0410 to U+042F and U+0400 to U+040F); other code points are left
  as they are.
\<close>

definition lower_cp :: "nat \<Rightarrow> nat" where
  "lower_cp c =
     (if 65 \<le> c \<and> c \<le> 90 then c + 32
      else if 1040 \<le> c \<and> c \<le> 1071 then c + 32
      else if 1024 \<le> c \<and> c \<le> 1039 then c + 80
      else c)"

definition lower :: "ustr \<Rightarrow> ustr" where
  "lower s = map lower_cp s"


section \<open>The patterns of the program\<close>

definition letter_set :: "cset_item list" where
  "letter_set = [Range 65 90, Range 97 122, Range 1040 1071, Range 1072 1103,
     One 1111, One 1031, One 1108, One 1028]"

text \<open>\<^verbatim>\<open>^[...]{2,25}$\<close>, the set being A-Z, a-z, the Cyrillic ranges U+0410-U+042F and
  U+0430-U+044F, and the four letters U+0457, U+0407, U+0454, U+0404.\<close>

definition name_value_pattern :: rx where
  "name_value_pattern = Seq Bol (Seq (Rep 2 (Some 25) (Cset letter_set)) Eol)"

definition is_letter :: "nat \<Rightarrow> bool" where
  "is_letter c = cset_has letter_set c"

text \<open>A valid name in words: 2 to 25 characters, each a letter of the set.\<close>

definition name_form :: "ustr \<Rightarrow> bool" where
  "name_form s = (2 \<le> length s \<and> length s \<le> 25 \<and> list_all is_letter s)"

text \<open>
  \<^verbatim>\<open>^\+(?:\d[\s-]?){9,14}\d$|\d{9,10}$\<close>: the alternation binds weakest, so the
  second alternative has no \<open>^\<close> of its own (\<open>re.match\<close> starts at the beginning of the
  subject anyway). \<open>phone_group\<close> is the repeated group \<^verbatim>\<open>(?:\d[\s-]?)\<close>, and
  \<open>phone_tail\<close> is what the first alternative still has to match after its groups,
  \<^verbatim>\<open>\d$\<close>, as a continuation.
\<close>

definition phone_group :: rx where
  "phone_group = Seq (Cset [Cat_digit]) (Rep 0 (Some 1) (Cset [Cat_space, One 45]))"

definition phone_pattern :: rx where
  "phone_pattern =
     Alt (Seq Bol (Seq (Cset [One 43])
            (Seq (Rep 9 (Some 14) phone_group) (Seq (Cset [Cat_digit]) Eol))))
         (Seq (Rep 9 (Some 10) (Cset [Cat_digit])) Eol)"

definition phone_tail :: "nat \<Rightarrow> ustr \<Rightarrow> bool" where
  "phone_tail j t = rmatch (Seq (Cset [Cat_digit]) Eol) j t (\<lambda>j t. True)"

text \<open>\<^verbatim>\<open>^[a-zA-Z0-9._%+-]+@[a-zA-Z0-9.-]+\.[a-zA-Z]{2,}$\<close>\<close>

definition email_pattern :: rx where
  "email_pattern =
     Seq Bol
       (Seq (Rep 1 None (Cset [Range 97 122, Range 65 90, Range 48 57,
                One 46, One 95, One 37, One 43, One 45]))
       (Seq (Cset [One 64])
       (Seq (Rep 1 None (Cset [Range 97 122, Range 65 90, Range 48 57, One 46, One 45]))
       (Seq (Cset [One 46])
       (Seq (Rep 2 None (Cset [Range 97 122, Range 65 90])) Eol)))))"

text \<open>\<^verbatim>\<open>[-|_|\\|/]\<close>: inside a set the bar is a character like the others.\<close>

definition birthday_separators :: "cset_item list" where
  "birthday_separators = [One 45, One 124, One 95, One 124, One 92, One 124, One 47]"


section \<open>The library: \<open>int\<close> and dates\<close>

text \<open>
  \<open>int(s)\<close> on ASCII text: white space around the number is dropped, a sign may lead,
  and the digits may be grouped by single underscores. \<open>a, b, c = map(int, parts)\<close>
  converts a part at a time as it unpacks, and looks for a fourth part (converting it)
  before it says that there are too many.
\<close>

definition int_space :: "nat \<Rightarrow> bool" where
  "int_space c = ((9 \<le> c \<and> c \<le> 13) \<or> c = 32)"

fun digits_value :: "int \<Rightarrow> ustr \<Rightarrow> int option" where
  "digits_value acc [] = None"
| "digits_value acc [c] = (if is_digit c then Some (10 * acc + int (c - 48)) else None)"
| "digits_value acc (c # d # s) =
     (if \<not> is_digit c then None
      else if d = 95 then digits_value (10 * acc + int (c - 48)) s
      else digits_value (10 * acc + int (c - 48)) (d # s))"

definition py_int :: "ustr \<Rightarrow> error + int" where
  "py_int s =
     (let t = rev (dropWhile int_space (rev (dropWhile int_space s)));
          neg = (case t of [] \<Rightarrow> False | c # r \<Rightarrow> c = 45);
          body = (case t of [] \<Rightarrow> [] | c # r \<Rightarrow> if c = 43 \<or> c = 45 then r else t)
      in case digits_value 0 body of
           None \<Rightarrow> Inl (ValueError (Int_literal s))
         | Some n \<Rightarrow> Inr (if neg then - n else n))"

definition unpack3_ints :: "ustr list \<Rightarrow> error + int \<times> int \<times> int" where
  "unpack3_ints ts =
     (case ts of [] \<Rightarrow> Inl (ValueError (Unpack_not_enough 0))
      | a # ts1 \<Rightarrow> (case py_int a of Inl e \<Rightarrow> Inl e | Inr x \<Rightarrow>
     (case ts1 of [] \<Rightarrow> Inl (ValueError (Unpack_not_enough 1))
      | b # ts2 \<Rightarrow> (case py_int b of Inl e \<Rightarrow> Inl e | Inr y \<Rightarrow>
     (case ts2 of [] \<Rightarrow> Inl (ValueError (Unpack_not_enough 2))
      | c # ts3 \<Rightarrow> (case py_int c of Inl e \<Rightarrow> Inl e | Inr z \<Rightarrow>
     (case ts3 of [] \<Rightarrow> Inr (x, y, z)
      | d # ts4 \<Rightarrow> (case py_int d of Inl e \<Rightarrow> Inl e
                    | Inr w \<Rightarrow> Inl (ValueError Unpack_too_many)))))))))"

text \<open>
  \<open>datetime.date\<close>: a year from 1 to 9999, a month and a day of that month in the
  proleptic Gregorian calendar. \<open>mk_date\<close> is the constructor \<open>date(year, month, day)\<close>,
  which checks the three fields in this order; \<open>toordinal\<close> numbers the days from
  1 January of year 1, and the difference of two dates is the difference of their
  ordinals.
\<close>

datatype date = Date (year: int) (month: int) (day: int)

definition is_leap :: "int \<Rightarrow> bool" where
  "is_leap y = (y mod 4 = 0 \<and> (y mod 100 \<noteq> 0 \<or> y mod 400 = 0))"

definition days_in_month :: "int \<Rightarrow> int \<Rightarrow> int" where
  "days_in_month y m =
     (if m = 2 then (if is_leap y then 29 else 28)
      else if m = 4 \<or> m = 6 \<or> m = 9 \<or> m = 11 then 30 else 31)"

definition valid_date :: "date \<Rightarrow> bool" where
  "valid_date d =
     (1 \<le> year d \<and> year d \<le> 9999 \<and> 1 \<le> month d \<and> month d \<le> 12 \<and>
      1 \<le> day d \<and> day d \<le> days_in_month (year d) (month d))"

definition mk_date :: "int \<Rightarrow> int \<Rightarrow> int \<Rightarrow> error + date" where
  "mk_date y m d =
     (if y < 1 \<or> 9999 < y then Inl (ValueError (Year_range y))
      else if m < 1 \<or> 12 < m then Inl (ValueError Month_range)
      else if d < 1 \<or> days_in_month y m < d then Inl (ValueError Day_range)
      else Inr (Date y m d))"

definition date_lt :: "date \<Rightarrow> date \<Rightarrow> bool" where
  "date_lt a b =
     (year a < year b \<or> (year a = year b \<and>
       (month a < month b \<or> (month a = month b \<and> day a < day b))))"

definition date_le :: "date \<Rightarrow> date \<Rightarrow> bool" where
  "date_le a b = (date_lt a b \<or> a = b)"

definition days_before_year :: "int \<Rightarrow> int" where
  "days_before_year y = (y - 1) * 365 + (y - 1) div 4 - (y - 1) div 100 + (y - 1) div 400"

definition month_offsets :: "int list" where
  "month_offsets = [0, 31, 59, 90, 120, 151, 181, 212, 243, 273, 304, 334]"

definition days_before_month :: "int \<Rightarrow> int \<Rightarrow> int" where
  "days_before_month y m =
     month_offsets ! nat (m - 1) + (if 2 < m \<and> is_leap y then 1 else 0)"

definition toordinal :: "date \<Rightarrow> int" where
  "toordinal d = days_before_year (year d) + days_before_month (year d) (month d) + day d"

text \<open>\<open>strftime("%d-%m-%Y")\<close>: day and month in two digits, the year in four (whether a
  year below 1000 is padded is the platform's choice; here it is).\<close>

definition digit_cp :: "int \<Rightarrow> nat" where
  "digit_cp n = 48 + nat (n mod 10)"

definition strftime_dmy :: "date \<Rightarrow> ustr" where
  "strftime_dmy d =
     [digit_cp (day d div 10), digit_cp (day d), 45,
      digit_cp (month d div 10), digit_cp (month d), 45,
      digit_cp (year d div 1000), digit_cp (year d div 100), digit_cp (year d div 10),
      digit_cp (year d)]"


section \<open>Fields\<close>

text \<open>
  Each field class keeps one value behind a setter that checks it. The functions below
  are the setters: they return the value the field then holds, or the exception, in
  which case nothing was stored. A constructor runs the setter on a new object, so a
  failed construction leaves no object. \<open>Birthday\<close> reads the clock (\<open>today\<close>).
\<close>

definition Name :: "ustr \<Rightarrow> error + ustr" where
  "Name v = (if re_match name_value_pattern v then Inr v else Inl (ValueError Name_not_valid))"

definition Phone :: "ustr \<Rightarrow> error + ustr" where
  "Phone v = (if \<not> re_match phone_pattern v then Inl (ValueError Phone_not_valid) else Inr v)"

definition Email :: "ustr \<Rightarrow> error + ustr" where
  "Email v = (if \<not> re_match email_pattern v then Inl (ValueError Email_not_valid) else Inr v)"

definition Birthday :: "date \<Rightarrow> ustr \<Rightarrow> error + date" where
  "Birthday today v =
     (case unpack3_ints (re_split birthday_separators v) of
        Inl e \<Rightarrow> Inl e
      | Inr (d, m, y) \<Rightarrow>
          (case mk_date y m d of
             Inl e \<Rightarrow> Inl e
           | Inr b \<Rightarrow> if date_le today b then Inl (ValueError Birthday_not_past) else Inr b))"


section \<open>Record\<close>

text \<open>
  A record holds the values of its fields; a phone is equal to another when their values
  are. A method that changes the record returns the exception it raised, if any, next to
  the record as the call leaves it.
\<close>

record Record =
  name :: ustr
  phones :: "ustr list"
  birthday :: "date option"
  email :: "ustr option"

definition new_Record :: "ustr \<Rightarrow> error + Record" where
  "new_Record nm =
     (case Name nm of
        Inl e \<Rightarrow> Inl e
      | Inr v \<Rightarrow> Inr \<lparr>name = v, phones = [], birthday = None, email = None\<rparr>)"

definition add_phone :: "ustr \<Rightarrow> Record \<Rightarrow> error option \<times> Record" where
  "add_phone phone r =
     (case Phone phone of
        Inl e \<Rightarrow> (Some e, r)
      | Inr p \<Rightarrow>
          if p \<notin> set (phones r) then (None, r\<lparr>phones := phones r @ [p]\<rparr>)
          else (Some (ValueError (Phone_exists p (name r))), r))"

text \<open>The loop of \<open>change_phone\<close>: the first phone whose value is \<open>old_phone\<close> gets
  the new value through the setter; the \<open>else\<close> of the loop raises when none is.\<close>

fun change_loop :: "ustr \<Rightarrow> ustr \<Rightarrow> ustr list \<Rightarrow> error option \<times> ustr list" where
  "change_loop old_phone new_phone [] = (Some (KeyError (Phone_not_found old_phone)), [])"
| "change_loop old_phone new_phone (p # ps) =
     (if p = old_phone then
        (case Phone new_phone of
           Inl e \<Rightarrow> (Some e, p # ps)
         | Inr v \<Rightarrow> (None, v # ps))
      else (case change_loop old_phone new_phone ps of (e, ps') \<Rightarrow> (e, p # ps')))"

definition change_phone :: "ustr \<Rightarrow> ustr \<Rightarrow> Record \<Rightarrow> error option \<times> Record" where
  "change_phone old_phone new_phone r =
     (case change_loop old_phone new_phone (phones r) of (e, ps) \<Rightarrow> (e, r\<lparr>phones := ps\<rparr>))"

definition del_phone :: "ustr \<Rightarrow> Record \<Rightarrow> error option \<times> Record" where
  "del_phone phone r =
     (case Phone phone of
        Inl e \<Rightarrow> (Some e, r)
      | Inr p \<Rightarrow>
          if p \<in> set (phones r) then (None, r\<lparr>phones := remove1 p (phones r)\<rparr>)
          else (Some (KeyError (Phone_not_exist p (name r))), r))"

definition set_birthday :: "date \<Rightarrow> ustr \<Rightarrow> Record \<Rightarrow> error option \<times> Record" where
  "set_birthday today v r =
     (case Birthday today v of
        Inl e \<Rightarrow> (Some e, r)
      | Inr b \<Rightarrow> (None, r\<lparr>birthday := Some b\<rparr>))"

definition del_birthday :: "Record \<Rightarrow> Record" where
  "del_birthday r = r\<lparr>birthday := None\<rparr>"

definition set_email :: "ustr \<Rightarrow> Record \<Rightarrow> error option \<times> Record" where
  "set_email v r =
     (case Email v of
        Inl e \<Rightarrow> (Some e, r)
      | Inr m \<Rightarrow> (None, r\<lparr>email := Some m\<rparr>))"

definition del_email :: "Record \<Rightarrow> Record" where
  "del_email r = r\<lparr>email := None\<rparr>"

text \<open>\<open>replace\<close> builds a new date from the old fields and the given ones, through the
  checking constructor.\<close>

definition replace_year :: "date \<Rightarrow> int \<Rightarrow> error + date" where
  "replace_year d y = mk_date y (month d) (day d)"

definition replace_year_day :: "date \<Rightarrow> int \<Rightarrow> int \<Rightarrow> error + date" where
  "replace_year_day d y dd = mk_date y (month d) dd"

definition days_to_birthday :: "date \<Rightarrow> Record \<Rightarrow> error + int option" where
  "days_to_birthday today r =
     (case birthday r of
        None \<Rightarrow> Inr None
      | Some b \<Rightarrow>
          (case (case replace_year b (year today) of
                   Inr d \<Rightarrow> Inr d
                 | Inl e \<Rightarrow> replace_year_day b (year today) (day today - 1)) of
             Inl e \<Rightarrow> Inl e
           | Inr this_year \<Rightarrow>
               (case (if date_lt this_year today then replace_year b (year today + 1)
                      else Inr this_year) of
                  Inl e \<Rightarrow> Inl e
                | Inr d \<Rightarrow> Inr (Some (toordinal d - toordinal today)))))"


section \<open>AddressBook\<close>

text \<open>
  The book is a dictionary from names to records, which keeps its keys in the order of
  their insertion: an association list. Storing under a key that is there replaces the
  value in place, storing under a new key appends.
\<close>

type_synonym AddressBook = "(ustr \<times> Record) list"

definition has_key :: "('k \<times> 'v) list \<Rightarrow> 'k \<Rightarrow> bool" where
  "has_key d k = (k \<in> set (map fst d))"

fun dict_set :: "('k \<times> 'v) list \<Rightarrow> 'k \<Rightarrow> 'v \<Rightarrow> ('k \<times> 'v) list" where
  "dict_set [] k v = [(k, v)]"
| "dict_set ((k', v') # d) k v =
     (if k' = k then (k', v) # d else (k', v') # dict_set d k v)"

definition dict_pop :: "('k \<times> 'v) list \<Rightarrow> 'k \<Rightarrow> ('k \<times> 'v) list" where
  "dict_pop d k = filter (\<lambda>kv. fst kv \<noteq> k) d"

definition dict_update :: "('k \<times> 'v) list \<Rightarrow> ('k \<times> 'v) list \<Rightarrow> ('k \<times> 'v) list" where
  "dict_update d c = foldl (\<lambda>acc kv. dict_set acc (fst kv) (snd kv)) d c"

definition add_record :: "ustr \<Rightarrow> AddressBook \<Rightarrow> error option \<times> AddressBook" where
  "add_record nm d =
     (if \<not> has_key d nm then
        (case new_Record nm of
           Inl e \<Rightarrow> (Some e, d)
         | Inr r \<Rightarrow> (None, dict_set d nm r))
      else (Some (KeyError Record_exists), d))"

definition del_record :: "ustr \<Rightarrow> AddressBook \<Rightarrow> error option \<times> AddressBook" where
  "del_record nm d =
     (if has_key d nm then (None, dict_pop d nm)
      else (Some (KeyError (Record_not_exist nm)), d))"

fun join :: "ustr \<Rightarrow> ustr list \<Rightarrow> ustr" where
  "join sep [] = []"
| "join sep [x] = x"
| "join sep (x # y # xs) = x @ sep @ join sep (y # xs)"

definition search_hit :: "ustr \<Rightarrow> Record \<Rightarrow> bool" where
  "search_hit query r =
     (str_in (lower query) (lower (name r)) \<or>
      list_ex (\<lambda>p. str_in query p) (phones r) \<or>
      (case birthday r of None \<Rightarrow> False | Some b \<Rightarrow> str_in (lower query) (strftime_dmy b)) \<or>
      (case email r of None \<Rightarrow> False | Some m \<Rightarrow> str_in (lower query) (lower m)))"

definition formatted_record :: "Record \<Rightarrow> ustr" where
  "formatted_record r =
     (let str_phones = (if phones r \<noteq> [] then join (ascii '', '') (phones r)
                        else ascii ''No records'');
          str_birthday = (case birthday r of Some b \<Rightarrow> strftime_dmy b
                          | None \<Rightarrow> ascii ''No records'');
          str_email = (case email r of Some m \<Rightarrow> m | None \<Rightarrow> ascii ''No records'')
      in [10] @ ascii '' Name: '' @ name r @ [10] @ ascii '' Phones: '' @ str_phones @
         [10] @ ascii '' Birthday: '' @ str_birthday @ [10] @ ascii '' Email: '' @ str_email @
         [10])"

fun search_loop :: "ustr \<Rightarrow> ustr list \<Rightarrow> Record list \<Rightarrow> ustr list" where
  "search_loop query results [] = results"
| "search_loop query results (r # rs) =
     search_loop query
       (if search_hit query r then results @ [formatted_record r] else results) rs"

definition search :: "ustr \<Rightarrow> AddressBook \<Rightarrow> ustr list" where
  "search query d = search_loop query [] (map snd d)"

text \<open>
  \<open>contacts_with_days_to_bday\<close> reads \<open>record.bday\<close>. What a record object has are the
  four attributes its constructor sets and the methods of its class (the names with
  double underscores that every object has are left out); any other name raises
  \<open>AttributeError\<close>.
\<close>

datatype attr =
    Attr_name ustr
  | Attr_phones "ustr list"
  | Attr_birthday "date option"
  | Attr_email "ustr option"
  | Attr_method string

definition Record_methods :: "string list" where
  "Record_methods = [''add_phone'', ''change_phone'', ''del_phone'', ''set_birthday'',
     ''del_birthday'', ''set_email'', ''del_email'', ''days_to_birthday'']"

definition Record_getattr :: "Record \<Rightarrow> string \<Rightarrow> error + attr" where
  "Record_getattr r a =
     (if a = ''name'' then Inr (Attr_name (name r))
      else if a = ''phones'' then Inr (Attr_phones (phones r))
      else if a = ''birthday'' then Inr (Attr_birthday (birthday r))
      else if a = ''email'' then Inr (Attr_email (email r))
      else if a \<in> set Record_methods then Inr (Attr_method a)
      else Inl (AttributeError (No_attribute a)))"

text \<open>
  The loop of \<open>contacts_with_days_to_bday\<close>, with the list \<open>result\<close> as accumulator.
  Two library calls of its body are parameters: \<open>strptime\<close> stands for
  \<open>datetime.strptime(_, "%d %B %Y")\<close> and \<open>fmt\<close> for the text an f-string puts in
  place of a value. \<open>days\<close> is an integer, so \<open>int(days)\<close> is \<open>days\<close>.
\<close>

fun bday_loop :: "(attr \<Rightarrow> error + date) \<Rightarrow> (attr \<Rightarrow> ustr) \<Rightarrow> date \<Rightarrow> int \<Rightarrow>
    ustr list \<Rightarrow> Record list \<Rightarrow> error + ustr list" where
  "bday_loop strptime fmt today days result [] = Inr result"
| "bday_loop strptime fmt today days result (r # rs) =
     (case Record_getattr r ''bday'' of Inl e \<Rightarrow> Inl e | Inr a \<Rightarrow>
     (case strptime a of Inl e \<Rightarrow> Inl e | Inr bd \<Rightarrow>
     (case mk_date (year today) (month bd) (day bd) of Inl e \<Rightarrow> Inl e | Inr cur \<Rightarrow>
     (case (if date_lt cur today then mk_date (year today + 1) (month bd) (day bd)
            else Inr cur) of Inl e \<Rightarrow> Inl e | Inr cur' \<Rightarrow>
        if toordinal cur' - toordinal today = days then
          (case Record_getattr r ''name'' of Inl e \<Rightarrow> Inl e | Inr n \<Rightarrow>
          (case Record_getattr r ''bday'' of Inl e \<Rightarrow> Inl e | Inr b \<Rightarrow>
             bday_loop strptime fmt today days (result @ [fmt n @ ascii '', '' @ fmt b]) rs))
        else bday_loop strptime fmt today days result rs))))"

definition contacts_with_days_to_bday :: "(attr \<Rightarrow> error + date) \<Rightarrow> (attr \<Rightarrow> ustr) \<Rightarrow>
    date \<Rightarrow> int \<Rightarrow> AddressBook \<Rightarrow> error + ustr" where
  "contacts_with_days_to_bday strptime fmt today days d =
     (case bday_loop strptime fmt today days [] (map snd d) of
        Inl e \<Rightarrow> Inl e
      | Inr result \<Rightarrow> Inr (join [10] result))"

text \<open>
  Files: a file system maps a file name to the content of the file, if there is one.
  \<open>pickle.dump\<close> and \<open>pickle.load\<close> are parameters, \<open>dump\<close> from a dictionary to a
  content and \<open>load\<close> back, which may fail. Opening a file for writing creates or
  replaces it; a missing file on reading is the \<open>FileNotFoundError\<close> the method
  swallows.
\<close>

type_synonym 'b files = "ustr \<Rightarrow> 'b option"

definition save_records_to_file :: "(AddressBook \<Rightarrow> 'b) \<Rightarrow> ustr \<Rightarrow> AddressBook \<Rightarrow>
    'b files \<Rightarrow> 'b files" where
  "save_records_to_file dump filename d fs = fs(filename \<mapsto> dump d)"

definition read_records_from_file :: "('b \<Rightarrow> error + AddressBook) \<Rightarrow> ustr \<Rightarrow> 'b files \<Rightarrow>
    AddressBook \<Rightarrow> error option \<times> AddressBook" where
  "read_records_from_file load filename fs d =
     (case fs filename of
        None \<Rightarrow> (None, d)
      | Some content \<Rightarrow>
          (case load content of
             Inl e \<Rightarrow> (Some e, d)
           | Inr c \<Rightarrow> (None, dict_update d c)))"


section \<open>The forms of a phone number\<close>

text \<open>
  Two descriptions of phone numbers in words, to compare the pattern with.
  \<open>group_digits sep s\<close> counts the digits of \<open>s\<close> when \<open>s\<close> consists of digits, each but
  the last followed by at most one separator; \<open>plus_grouped sep lo hi\<close> is a plus sign
  before such a string of \<open>lo\<close> to \<open>hi\<close> digits, and \<open>bare_digits lo hi\<close> is a string of
  \<open>lo\<close> to \<open>hi\<close> digits and nothing else.

  \<open>spec_phone_form\<close> follows the specification: 9 or 10 bare digits, or a plus sign and 9
  to 14 digits that single spaces or dashes may separate. \<open>phone_form\<close> has 10 to 15
  digits after the plus sign and lets any one white-space character or dash separate
  them.
\<close>

fun group_digits :: "(nat \<Rightarrow> bool) \<Rightarrow> ustr \<Rightarrow> nat option" where
  "group_digits sep [] = None"
| "group_digits sep [c] = (if is_digit c then Some 1 else None)"
| "group_digits sep (c # d # s) =
     (if \<not> is_digit c then None
      else if sep d then map_option Suc (group_digits sep s)
      else map_option Suc (group_digits sep (d # s)))"

definition plus_grouped :: "(nat \<Rightarrow> bool) \<Rightarrow> nat \<Rightarrow> nat \<Rightarrow> ustr \<Rightarrow> bool" where
  "plus_grouped sep lo hi s =
     (case s of [] \<Rightarrow> False
      | c # t \<Rightarrow> c = 43 \<and>
          (case group_digits sep t of None \<Rightarrow> False | Some n \<Rightarrow> lo \<le> n \<and> n \<le> hi))"

definition bare_digits :: "nat \<Rightarrow> nat \<Rightarrow> ustr \<Rightarrow> bool" where
  "bare_digits lo hi s = (list_all is_digit s \<and> lo \<le> length s \<and> length s \<le> hi)"

definition spec_phone_form :: "ustr \<Rightarrow> bool" where
  "spec_phone_form s = (bare_digits 9 10 s \<or> plus_grouped (\<lambda>c. c = 32 \<or> c = 45) 9 14 s)"

definition phone_sep :: "nat \<Rightarrow> bool" where
  "phone_sep c = (is_space c \<or> c = 45)"

definition phone_form :: "ustr \<Rightarrow> bool" where
  "phone_form s = (bare_digits 9 10 s \<or> plus_grouped phone_sep 10 15 s)"

text \<open>A string that does not end in a line feed, and a string of code points below
  U+0660, where the tables of \<open>\\d\<close> and \<open>\\s\<close> above are complete.\<close>

definition no_final_lf :: "ustr \<Rightarrow> bool" where
  "no_final_lf s = (s = [] \<or> last s \<noteq> 10)"

definition below_660 :: "ustr \<Rightarrow> bool" where
  "below_660 s = list_all (\<lambda>c. c < 1632) s"


section \<open>The example of the program\<close>

text \<open>The record and the book that the example at the end of the program builds, before it
  deletes a phone again.\<close>

definition example_record :: Record where
  "example_record =
     \<lparr>name = ascii ''Alexander'',
      phones = [ascii ''111111111'', ascii ''111111112'', ascii ''111111113''],
      birthday = Some (Date 2022 9 30),
      email = Some (ascii ''abcdef@gmail.com'')\<rparr>"

definition example_book :: AddressBook where
  "example_book = [(ascii ''Alexander'', example_record)]"


section \<open>Properties of the book\<close>

subsection \<open>Search with the empty query\<close>

lemma str_in_Nil: "str_in [] s"
  by (induction s) simp_all

lemma search_hit_empty: "search_hit [] r"
  by (simp add: search_hit_def lower_def str_in_Nil)

lemma search_loop_all:
  "search_loop [] results rs = results @ map formatted_record rs"
  by (induction rs arbitrary: results) (simp_all add: search_hit_empty)

text \<open>
  C10. For every book, \<open>search\<close> with the empty query returns the formatted block of every
  record of the book, one for each, in the order of the keys: the empty string occurs in
  every name.
\<close>

theorem search_empty_query_lists_every_record:
  "search [] d = map (\<lambda>kv. formatted_record (snd kv)) d"
  by (simp add: search_def search_loop_all comp_def)

subsection \<open>Contacts by days to the birthday\<close>

text \<open>
  C1. \<open>contacts_with_days_to_bday\<close> does not compute anything for a book that holds a
  record: its loop reads the attribute \<open>bday\<close> of the first record, which no record has,
  and the call ends with \<open>AttributeError\<close>, whatever the birthdays, the day count and the
  library functions behind the rest of the loop are.
\<close>

theorem contacts_with_days_to_bday_raises:
  "contacts_with_days_to_bday strptime fmt today days ((k, r) # d) =
     Inl (AttributeError (No_attribute ''bday''))"
  by (simp add: contacts_with_days_to_bday_def Record_getattr_def Record_methods_def)

subsection \<open>Storing under a key\<close>

lemma dict_set_new: "k \<notin> set (map fst d) \<Longrightarrow> dict_set d k v = d @ [(k, v)]"
  by (induction d) auto

lemma count_key_absent: "k \<notin> set (map fst d) \<Longrightarrow> filter (\<lambda>kv. fst kv = k) d = []"
  by (induction d) auto

lemma count_key_present:
  "distinct (map fst d) \<Longrightarrow> k \<in> set (map fst d) \<Longrightarrow>
   length (filter (\<lambda>kv. fst kv = k) d) = 1"
  by (induction d) (auto simp: count_key_absent)

subsection \<open>Saving and loading\<close>

lemma dict_update_fresh:
  "distinct (map fst c) \<Longrightarrow> set (map fst d) \<inter> set (map fst c) = {} \<Longrightarrow>
   dict_update d c = d @ c"
proof (induction c arbitrary: d)
  case Nil
  then show ?case by (simp add: dict_update_def)
next
  case (Cons kv c)
  have "dict_set d (fst kv) (snd kv) = d @ [kv]"
    using Cons.prems(2) by (simp add: dict_set_new)
  moreover have "dict_update (d @ [kv]) c = (d @ [kv]) @ c"
    using Cons.prems by (intro Cons.IH) auto
  ultimately show ?case by (simp add: dict_update_def)
qed

text \<open>
  C4. Take any serialisation that loads back what it dumped, as \<open>pickle\<close> does for the
  records of this program. For every book (a dictionary: its keys are distinct), every
  file name and every file system, saving the book and then reading the file into an
  empty book succeeds and yields the book itself: the same keys in the same order, each
  with a record equal in name, phones, email and birthday.
\<close>

theorem save_then_read_round_trip:
  assumes "\<forall>b. load (dump b) = Inr b" and "distinct (map fst d)"
  shows "read_records_from_file load filename (save_records_to_file dump filename d fs) [] =
    (None, d)"
  using assms dict_update_fresh [of d "[]"]
  by (simp add: read_records_from_file_def save_records_to_file_def)

theorem save_then_read_round_trip_witness:
  "distinct (map fst example_book) \<and>
   read_records_from_file Inr (ascii ''book.bin'')
     (save_records_to_file (\<lambda>b. b) (ascii ''book.bin'') example_book (\<lambda>f. None)) [] =
     (None, example_book)"
proof -
  have h: "distinct (map fst example_book)" by code_simp
  have "read_records_from_file Inr (ascii ''book.bin'')
     (save_records_to_file (\<lambda>b. b) (ascii ''book.bin'') example_book (\<lambda>f. None)) [] =
     (None, example_book)"
    by (rule save_then_read_round_trip [where load = Inr and dump = "\<lambda>b. b"])
      (simp_all add: h)
  with h show ?thesis by (rule conjI)
qed


section \<open>Properties of a record\<close>

subsection \<open>A failed call changes nothing\<close>

lemma change_loop_failed: "change_loop old new ps = (Some e, ps') \<Longrightarrow> ps' = ps"
  by (induction ps arbitrary: ps') (auto split: if_splits sum.splits prod.splits)

lemma add_phone_failed: "fst (add_phone p r) \<noteq> None \<Longrightarrow> snd (add_phone p r) = r"
  by (auto simp: add_phone_def split: sum.splits if_splits)

lemma change_phone_failed:
  "fst (change_phone old new r) \<noteq> None \<Longrightarrow> snd (change_phone old new r) = r"
  by (auto simp: change_phone_def split: prod.splits dest: change_loop_failed)

lemma del_phone_failed: "fst (del_phone p r) \<noteq> None \<Longrightarrow> snd (del_phone p r) = r"
  by (auto simp: del_phone_def split: sum.splits if_splits)

lemma set_birthday_failed:
  "fst (set_birthday today v r) \<noteq> None \<Longrightarrow> snd (set_birthday today v r) = r"
  by (auto simp: set_birthday_def split: sum.splits)

lemma set_email_failed: "fst (set_email v r) \<noteq> None \<Longrightarrow> snd (set_email v r) = r"
  by (auto simp: set_email_def split: sum.splits)

lemma add_record_failed: "fst (add_record nm d) \<noteq> None \<Longrightarrow> snd (add_record nm d) = d"
  by (auto simp: add_record_def split: sum.splits if_splits)

lemma del_record_failed: "fst (del_record nm d) \<noteq> None \<Longrightarrow> snd (del_record nm d) = d"
  by (auto simp: del_record_def split: if_splits)

lemma del_phone_absent:
  "p \<notin> set (phones r) \<Longrightarrow> Phone p = Inr p \<Longrightarrow>
   del_phone p r = (Some (KeyError (Phone_not_exist p (name r))), r)"
  by (simp add: del_phone_def)

text \<open>
  C3. Whenever \<open>add_phone\<close>, \<open>change_phone\<close>, \<open>del_phone\<close>, \<open>set_birthday\<close>,
  \<open>set_email\<close>, \<open>add_record\<close> or \<open>del_record\<close> raises, the record (its name, phones,
  email and birthday) or the book is, after the call, what it was before. In particular
  \<open>del_phone\<close> on a phone that the record does not hold raises the not-found error
  (\<open>KeyError\<close>) and leaves the record as it was.
\<close>

theorem failed_operation_keeps_state:
  "(fst (add_phone p r) \<noteq> None \<longrightarrow> snd (add_phone p r) = r) \<and>
   (fst (change_phone old new r) \<noteq> None \<longrightarrow> snd (change_phone old new r) = r) \<and>
   (fst (del_phone p r) \<noteq> None \<longrightarrow> snd (del_phone p r) = r) \<and>
   (fst (set_birthday today v r) \<noteq> None \<longrightarrow> snd (set_birthday today v r) = r) \<and>
   (fst (set_email v r) \<noteq> None \<longrightarrow> snd (set_email v r) = r) \<and>
   (fst (add_record nm d) \<noteq> None \<longrightarrow> snd (add_record nm d) = d) \<and>
   (fst (del_record nm d) \<noteq> None \<longrightarrow> snd (del_record nm d) = d) \<and>
   (p \<notin> set (phones r) \<and> Phone p = Inr p \<longrightarrow>
      del_phone p r = (Some (KeyError (Phone_not_exist p (name r))), r))"
  by (simp add: add_phone_failed change_phone_failed del_phone_failed set_birthday_failed
    set_email_failed add_record_failed del_record_failed del_phone_absent)

theorem failed_operation_keeps_state_witness:
  "fst (add_phone (ascii ''111111111'') example_record) \<noteq> None \<and>
   snd (add_phone (ascii ''111111111'') example_record) = example_record \<and>
   fst (change_phone (ascii ''999999999'') (ascii ''111111112'') example_record) \<noteq> None \<and>
   snd (change_phone (ascii ''999999999'') (ascii ''111111112'') example_record) =
     example_record \<and>
   fst (del_phone (ascii ''999999999'') example_record) \<noteq> None \<and>
   snd (del_phone (ascii ''999999999'') example_record) = example_record \<and>
   fst (set_birthday (Date 2026 11 3) (ascii ''30-09'') example_record) \<noteq> None \<and>
   snd (set_birthday (Date 2026 11 3) (ascii ''30-09'') example_record) = example_record \<and>
   fst (set_email (ascii ''30-09'') example_record) \<noteq> None \<and>
   snd (set_email (ascii ''30-09'') example_record) = example_record \<and>
   fst (add_record (ascii ''Alexander'') example_book) \<noteq> None \<and>
   snd (add_record (ascii ''Alexander'') example_book) = example_book \<and>
   fst (del_record (ascii ''Boris'') example_book) \<noteq> None \<and>
   snd (del_record (ascii ''Boris'') example_book) = example_book \<and>
   ascii ''999999999'' \<notin> set (phones example_record) \<and>
   Phone (ascii ''999999999'') = Inr (ascii ''999999999'') \<and>
   del_phone (ascii ''999999999'') example_record =
     (Some (KeyError (Phone_not_exist (ascii ''999999999'') (name example_record))),
      example_record)"
proof -
  note a = failed_operation_keeps_state [of "ascii ''111111111''" example_record
      "ascii ''999999999''" "ascii ''111111112''" "Date 2026 11 3" "ascii ''30-09''"
      "ascii ''Alexander''" example_book]
  note b = failed_operation_keeps_state [of "ascii ''999999999''" example_record
      "ascii ''999999999''" "ascii ''111111112''" "Date 2026 11 3" "ascii ''30-09''"
      "ascii ''Boris''" example_book]
  have h1: "fst (add_phone (ascii ''111111111'') example_record) \<noteq> None" by code_simp
  have h2: "fst (change_phone (ascii ''999999999'') (ascii ''111111112'') example_record)
      \<noteq> None" by code_simp
  have h3: "fst (del_phone (ascii ''999999999'') example_record) \<noteq> None" by code_simp
  have h4: "fst (set_birthday (Date 2026 11 3) (ascii ''30-09'') example_record) \<noteq> None"
    by code_simp
  have h5: "fst (set_email (ascii ''30-09'') example_record) \<noteq> None" by code_simp
  have h6: "fst (add_record (ascii ''Alexander'') example_book) \<noteq> None" by code_simp
  have h7: "fst (del_record (ascii ''Boris'') example_book) \<noteq> None" by code_simp
  have h8: "ascii ''999999999'' \<notin> set (phones example_record)" by code_simp
  have h9: "Phone (ascii ''999999999'') = Inr (ascii ''999999999'')" by code_simp
  have c1: "snd (add_phone (ascii ''111111111'') example_record) = example_record"
    using a h1 by blast
  have c2: "snd (change_phone (ascii ''999999999'') (ascii ''111111112'') example_record) =
      example_record"
    using a h2 by blast
  have c3: "snd (del_phone (ascii ''999999999'') example_record) = example_record"
    using b h3 by blast
  have c4: "snd (set_birthday (Date 2026 11 3) (ascii ''30-09'') example_record) =
      example_record"
    using a h4 by blast
  have c5: "snd (set_email (ascii ''30-09'') example_record) = example_record"
    using a h5 by blast
  have c6: "snd (add_record (ascii ''Alexander'') example_book) = example_book"
    using a h6 by blast
  have c7: "snd (del_record (ascii ''Boris'') example_book) = example_book"
    using b h7 by blast
  have c8: "del_phone (ascii ''999999999'') example_record =
     (Some (KeyError (Phone_not_exist (ascii ''999999999'') (name example_record))),
      example_record)"
    using b h8 h9 by blast
  show ?thesis
    by (intro conjI) (fact h1 h2 h3 h4 h5 h6 h7 h8 h9 c1 c2 c3 c4 c5 c6 c7 c8)+
qed

subsection \<open>Changing a phone to one that is there\<close>

text \<open>
  C2. The record of the example, built by the constructor and two calls of \<open>add_phone\<close>,
  holds two different phones; \<open>change_phone\<close> from the first to the second succeeds,
  and the record then holds the same phone twice. \<open>add_phone\<close> refuses a phone that is
  there; \<open>change_phone\<close> does not look.
\<close>

theorem change_phone_makes_duplicate:
  "new_Record (ascii ''Alexander'') =
     Inr \<lparr>name = ascii ''Alexander'', phones = [], birthday = None, email = None\<rparr> \<and>
   add_phone (ascii ''111111111'')
     \<lparr>name = ascii ''Alexander'', phones = [], birthday = None, email = None\<rparr> =
     (None, \<lparr>name = ascii ''Alexander'', phones = [ascii ''111111111''],
             birthday = None, email = None\<rparr>) \<and>
   add_phone (ascii ''111111112'')
     \<lparr>name = ascii ''Alexander'', phones = [ascii ''111111111''],
      birthday = None, email = None\<rparr> =
     (None, \<lparr>name = ascii ''Alexander'', phones = [ascii ''111111111'', ascii ''111111112''],
             birthday = None, email = None\<rparr>) \<and>
   change_phone (ascii ''111111111'') (ascii ''111111112'')
     \<lparr>name = ascii ''Alexander'', phones = [ascii ''111111111'', ascii ''111111112''],
      birthday = None, email = None\<rparr> =
     (None, \<lparr>name = ascii ''Alexander'', phones = [ascii ''111111112'', ascii ''111111112''],
             birthday = None, email = None\<rparr>)"
  by code_simp


subsection \<open>The calls that keep the phones distinct\<close>

lemma change_loop_distinct:
  "distinct ps \<Longrightarrow> new \<notin> set ps \<Longrightarrow> change_loop old new ps = (e, ps') \<Longrightarrow> distinct ps'"
proof (induction ps arbitrary: e ps')
  case Nil
  then show ?case by simp
next
  case (Cons p ps)
  show ?case
  proof (cases "p = old")
    case True
    with Cons.prems show ?thesis
      by (auto simp: Phone_def split: if_splits)
  next
    case False
    obtain e1 ps1 where l: "change_loop old new ps = (e1, ps1)" by (cases "change_loop old new ps")
    have s: "set ps1 \<subseteq> insert new (set ps)"
      using l
    proof (induction ps arbitrary: e1 ps1)
      case Nil
      then show ?case by simp
    next
      case (Cons q qs)
      then show ?case
        by (auto simp: Phone_def split: if_splits prod.splits)
    qed
    have "distinct ps1" using Cons.IH [OF _ _ l] Cons.prems by simp
    moreover have "p \<notin> set ps1" using s Cons.prems by auto
    ultimately show ?thesis using Cons.prems False l by auto
  qed
qed

text \<open>
  When the phones of a record are pairwise distinct, they still are after \<open>add_phone\<close>,
  \<open>del_phone\<close>, \<open>set_birthday\<close>, \<open>del_birthday\<close>, \<open>set_email\<close> and \<open>del_email\<close>,
  whether the call succeeds or fails, and after \<open>change_phone\<close> when the new value is
  not among them.
\<close>

theorem phones_stay_distinct:
  assumes "distinct (phones r)"
  shows "distinct (phones (snd (add_phone p r))) \<and>
    distinct (phones (snd (del_phone p r))) \<and>
    distinct (phones (snd (set_birthday today v r))) \<and>
    distinct (phones (del_birthday r)) \<and>
    distinct (phones (snd (set_email v r))) \<and>
    distinct (phones (del_email r)) \<and>
    (new \<notin> set (phones r) \<longrightarrow> distinct (phones (snd (change_phone old new r))))"
proof -
  have "distinct (phones (snd (change_phone old new r)))" if "new \<notin> set (phones r)"
    using change_loop_distinct [OF assms that]
    by (cases "change_loop old new (phones r)") (auto simp: change_phone_def)
  then show ?thesis
    using assms
    by (auto simp: add_phone_def del_phone_def set_birthday_def del_birthday_def
        set_email_def del_email_def Phone_def split: sum.splits)
qed

theorem phones_stay_distinct_witness:
  "distinct (phones example_record) \<and>
   distinct (phones (snd (add_phone (ascii ''111111114'') example_record))) \<and>
   distinct (phones (snd (del_phone (ascii ''111111112'') example_record))) \<and>
   ascii ''111111114'' \<notin> set (phones example_record) \<and>
   distinct (phones (snd (change_phone (ascii ''111111111'') (ascii ''111111114'')
     example_record)))"
proof -
  have h1: "distinct (phones example_record)" by code_simp
  have h2: "ascii ''111111114'' \<notin> set (phones example_record)" by code_simp
  note a = phones_stay_distinct [OF h1, of "ascii ''111111114''" "Date 2026 11 3"
      "ascii ''30-09''" "ascii ''111111114''" "ascii ''111111111''"]
  note b = phones_stay_distinct [OF h1, of "ascii ''111111112''" "Date 2026 11 3"
      "ascii ''30-09''" "ascii ''111111114''" "ascii ''111111111''"]
  have c1: "distinct (phones (snd (add_phone (ascii ''111111114'') example_record)))"
    using a by blast
  have c2: "distinct (phones (snd (del_phone (ascii ''111111112'') example_record)))"
    using b by blast
  have c3: "distinct (phones (snd (change_phone (ascii ''111111111'') (ascii ''111111114'')
     example_record)))"
    using a h2 by blast
  show ?thesis
    by (intro conjI) (fact h1 h2 c1 c2 c3)+
qed


section \<open>Properties of the fields\<close>

subsection \<open>The matcher on a repeated set\<close>

lemma rmatch_Cset:
  "rmatch (Cset its) i s k = (\<exists>c t. s = c # t \<and> cset_has its c \<and> k (Suc i) t)"
  by (cases s) auto

lemma rep_Cset:
  "rep (rmatch (Cset its)) n x i s k =
     (\<exists>m. n \<le> m \<and> m \<le> n + x \<and> m \<le> length s \<and> list_all (cset_has its) (take m s) \<and>
          k (i + m) (drop m s))"
proof (induction "rmatch (Cset its)" n x i s k rule: rep.induct)
  case (1 i s k)
  then show ?case by auto
next
  case (2 x i s k)
  show ?case
  proof (cases s)
    case Nil
    then show ?thesis by (auto simp: rmatch_Cset)
  next
    case (Cons c t)
    show ?thesis
      apply (simp add: rmatch_Cset Cons 2)
      apply (rule iffI)
       apply (erule disjE)
        apply (elim conjE exE)
      subgoal for m by (rule exI [of _ "Suc m"]) simp
       apply (rule exI [of _ 0], simp)
      apply (elim exE conjE)
      subgoal for m by (cases m) auto
      done
  qed
next
  case (3 n x i s k)
  show ?case
  proof (cases s)
    case Nil
    then show ?thesis by (auto simp: rmatch_Cset)
  next
    case (Cons c t)
    show ?thesis
      apply (simp add: rmatch_Cset Cons 3)
      apply (rule iffI)
       apply (elim conjE exE)
      subgoal for m by (rule exI [of _ "Suc m"]) simp
      apply (elim exE conjE)
      subgoal for m by (cases m) auto
      done
  qed
qed

subsection \<open>Name\<close>

text \<open>
  C6. A name of two letters followed by a line feed is accepted and stored with the line
  feed, and so is a name of 25 letters followed by a line feed, which has 26 characters:
  the \<open>$\<close> of the pattern also matches before a final line feed. And a name of the two
  Cyrillic letters U+0401 (capital IO) and U+0436 (small ZHE) is rejected: the set of the
  pattern leaves out the Cyrillic letters outside U+0410 to U+044F, but for four.
\<close>

theorem Name_accepts_trailing_line_feed:
  "Name (ascii ''Al'' @ [10]) = Inr (ascii ''Al'' @ [10]) \<and>
   Name (replicate 25 65 @ [10]) = Inr (replicate 25 65 @ [10]) \<and>
   length (replicate 25 65 @ [10::nat]) = 26 \<and>
   Name [1025, 1078] = Inl (ValueError Name_not_valid)"
  by code_simp

lemma name_pattern_unfold:
  "re_match name_value_pattern s =
     rep (rmatch (Cset letter_set)) 2 23 0 s (\<lambda>j t. t = [] \<or> t = [10])"
  by (simp add: re_match_def name_value_pattern_def)

lemma drop_eq_single: "drop m s = [c] \<Longrightarrow> s = take m s @ [c]"
  by (metis append_take_drop_id)

lemma re_match_name:
  "re_match name_value_pattern s =
     (\<exists>w. (s = w \<or> s = w @ [10]) \<and> 2 \<le> length w \<and> length w \<le> 25 \<and> list_all is_letter w)"
proof -
  have "re_match name_value_pattern s =
      (\<exists>m. 2 \<le> m \<and> m \<le> 25 \<and> m \<le> length s \<and> list_all is_letter (take m s) \<and>
           (drop m s = [] \<or> drop m s = [10]))"
    by (simp add: name_pattern_unfold rep_Cset is_letter_def [abs_def])
  also have "\<dots> = (\<exists>w. (s = w \<or> s = w @ [10]) \<and> 2 \<le> length w \<and> length w \<le> 25 \<and>
      list_all is_letter w)"
  proof
    assume "\<exists>m. 2 \<le> m \<and> m \<le> 25 \<and> m \<le> length s \<and> list_all is_letter (take m s) \<and>
           (drop m s = [] \<or> drop m s = [10])"
    then obtain m where m: "2 \<le> m" "m \<le> 25" "m \<le> length s" "list_all is_letter (take m s)"
      "drop m s = [] \<or> drop m s = [10]" by blast
    from m(5) have "s = take m s \<or> s = take m s @ [10]"
      using drop_eq_single [of m s 10] by auto
    with m show "\<exists>w. (s = w \<or> s = w @ [10]) \<and> 2 \<le> length w \<and> length w \<le> 25 \<and>
      list_all is_letter w"
      by (intro exI [of _ "take m s"]) simp
  next
    assume "\<exists>w. (s = w \<or> s = w @ [10]) \<and> 2 \<le> length w \<and> length w \<le> 25 \<and>
      list_all is_letter w"
    then obtain w where w: "s = w \<or> s = w @ [10]" "2 \<le> length w" "length w \<le> 25"
      "list_all is_letter w" by blast
    then show "\<exists>m. 2 \<le> m \<and> m \<le> 25 \<and> m \<le> length s \<and> list_all is_letter (take m s) \<and>
           (drop m s = [] \<or> drop m s = [10])"
      by (intro exI [of _ "length w"]) auto
  qed
  finally show ?thesis .
qed

lemma re_match_name_form:
  assumes "no_final_lf s"
  shows "re_match name_value_pattern s = name_form s"
proof -
  have "s \<noteq> w @ [10]" for w
    using assms by (auto simp: no_final_lf_def)
  then show ?thesis
    by (auto simp: re_match_name name_form_def)
qed

text \<open>
  What the constructor of a name accepts, exactly: a string of 2 to 25 letters of the
  pattern's set, or such a string followed by one line feed.
\<close>

theorem Name_accepts_exactly:
  "Name s =
     (if (\<exists>w. (s = w \<or> s = w @ [10]) \<and> 2 \<le> length w \<and> length w \<le> 25 \<and> list_all is_letter w)
      then Inr s else Inl (ValueError Name_not_valid))"
  by (simp add: Name_def re_match_name)

subsection \<open>Birthday\<close>

text \<open>
  C7. With the clock at 3 November 2026, the text \<open>30|09|2022\<close> is accepted as the
  birthday 30 September 2022: the vertical bar separates too. Cut at the four
  separators \<open>-\<close>, \<open>_\<close>, \<open>\\\<close> and \<open>/\<close> only, the text is one piece.
\<close>

theorem Birthday_splits_on_bar:
  "Birthday (Date 2026 11 3) (ascii ''30|09|2022'') = Inr (Date 2022 9 30) \<and>
   re_split [One 45, One 95, One 92, One 47] (ascii ''30|09|2022'') = [ascii ''30|09|2022'']"
  by code_simp

subsection \<open>Phone\<close>

lemma cset_digit: "cset_has [Cat_digit] c = is_digit c"
  by (simp add: cset_has_def)

lemma cset_sep: "cset_has [Cat_space, One 45] c = phone_sep c"
  by (auto simp: cset_has_def phone_sep_def)

lemma sep_not_digit: "phone_sep c \<Longrightarrow> \<not> is_digit c"
  by (auto simp: phone_sep_def is_space_def is_digit_def)

lemma rmatch_group:
  "rmatch phone_group i s k =
     (\<exists>c t. s = c # t \<and> is_digit c \<and>
        ((\<exists>c' t'. t = c' # t' \<and> phone_sep c' \<and> k (Suc (Suc i)) t') \<or> k (Suc i) t))"
  by (auto simp: phone_group_def cset_digit cset_sep split: list.splits)

lemma phone_tail_iff:
  "no_final_lf s \<Longrightarrow> phone_tail j s = (\<exists>c. s = [c] \<and> is_digit c)"
  by (auto simp: phone_tail_def cset_digit no_final_lf_def split: list.splits)

lemma phone_tail_Nil: "\<not> phone_tail j []"
  by (simp add: phone_tail_def)

lemma group_digits_pos: "group_digits sep s = Some m \<Longrightarrow> 1 \<le> m"
  by (induction sep s arbitrary: m rule: group_digits.induct) (auto split: if_splits)

lemma group_digits_not_zero: "group_digits sep s \<noteq> Some 0"
  using group_digits_pos [of sep s 0] by auto

lemma no_final_lf_tl: "no_final_lf (c # t) \<Longrightarrow> no_final_lf t"
  by (auto simp: no_final_lf_def split: if_splits)

lemma rep_group:
  "no_final_lf s \<Longrightarrow>
   rep (rmatch phone_group) n x i s phone_tail =
     (\<exists>m. group_digits phone_sep s = Some m \<and> Suc n \<le> m \<and> m \<le> Suc (n + x))"
proof (induction "rmatch phone_group" n x i s phone_tail rule: rep.induct)
  case (1 i s)
  then show ?case
    by (cases "(phone_sep, s)" rule: group_digits.cases)
       (auto simp: phone_tail_iff group_digits_not_zero split: if_splits)
next
  case (2 x i s)
  show ?case
  proof (cases "(phone_sep, s)" rule: group_digits.cases)
    case (1 sep)
    then show ?thesis by (simp add: rmatch_group phone_tail_Nil)
  next
    case (2 sep c)
    then have s: "s = [c]" by simp
    have "no_final_lf []" by (simp add: no_final_lf_def)
    then show ?thesis
      using "2.prems" by (auto simp: s rmatch_group "2.hyps" phone_tail_iff)
  next
    case (3 sep c d u)
    then have s: "s = c # d # u" by simp
    have nu: "no_final_lf u" and nd: "no_final_lf (d # u)"
      using "2.prems" s no_final_lf_tl by blast+
    have t: "\<not> phone_tail i s" using "2.prems" by (simp add: phone_tail_iff s)
    show ?thesis
    proof (cases "phone_sep d")
      case True
      then have "group_digits phone_sep (d # u) = None"
        using sep_not_digit by (cases u) auto
      then show ?thesis
        using True t nu nd group_digits_pos [of phone_sep u]
        by (auto simp: s rmatch_group "2.hyps")
    next
      case False
      then show ?thesis
        using t nu nd group_digits_pos [of phone_sep "d # u"]
        by (auto simp: s rmatch_group "2.hyps")
    qed
  qed
next
  case (3 n x i s)
  show ?case
  proof (cases "(phone_sep, s)" rule: group_digits.cases)
    case (1 sep)
    then show ?thesis by (simp add: rmatch_group)
  next
    case (2 sep c)
    then have s: "s = [c]" by simp
    have "no_final_lf []" by (simp add: no_final_lf_def)
    then show ?thesis
      using "3.prems" by (auto simp: s rmatch_group "3.hyps")
  next
    case (3 sep c d u)
    then have s: "s = c # d # u" by simp
    have nu: "no_final_lf u" and nd: "no_final_lf (d # u)"
      using "3.prems" s no_final_lf_tl by blast+
    show ?thesis
    proof (cases "phone_sep d")
      case True
      then have "group_digits phone_sep (d # u) = None"
        using sep_not_digit by (cases u) auto
      then show ?thesis
        using True nu nd by (auto simp: s rmatch_group "3.hyps")
    next
      case False
      then show ?thesis
        using nu nd by (auto simp: s rmatch_group "3.hyps")
    qed
  qed
qed

lemma phone_pattern_unfold:
  "re_match phone_pattern s =
     ((\<exists>t. s = 43 # t \<and> rep (rmatch phone_group) 9 5 1 t phone_tail) \<or>
      rep (rmatch (Cset [Cat_digit])) 9 1 0 s (\<lambda>j t. t = [] \<or> t = [10]))"
  by (cases s)
     (auto simp: re_match_def phone_pattern_def phone_group_def phone_tail_def [abs_def] cset_has_def)

lemma drop_not_lf: "no_final_lf s \<Longrightarrow> drop m s \<noteq> [10]"
proof
  assume n: "no_final_lf s" and d: "drop m s = [10]"
  then have "m < length s" by (cases "m < length s") auto
  then have "last (drop m s) = last s" by (rule last_drop)
  with n d show False by (auto simp: no_final_lf_def)
qed

lemma bare_digits_iff:
  assumes "no_final_lf s"
  shows "rep (rmatch (Cset [Cat_digit])) 9 1 0 s (\<lambda>j t. t = [] \<or> t = [10]) = bare_digits 9 10 s"
proof -
  have "rep (rmatch (Cset [Cat_digit])) 9 1 0 s (\<lambda>j t. t = [] \<or> t = [10]) =
      (\<exists>m. 9 \<le> m \<and> m \<le> 10 \<and> m \<le> length s \<and> list_all is_digit (take m s) \<and>
           drop m s = [])"
    using drop_not_lf [OF assms] by (simp add: rep_Cset cset_digit [abs_def])
  also have "\<dots> = bare_digits 9 10 s"
    by (auto simp: bare_digits_def)
  finally show ?thesis .
qed

lemma plus_grouped_iff:
  assumes "no_final_lf s"
  shows "(\<exists>t. s = 43 # t \<and> rep (rmatch phone_group) 9 5 1 t phone_tail) =
    plus_grouped phone_sep 10 15 s"
proof (cases s)
  case Nil
  then show ?thesis by (simp add: plus_grouped_def)
next
  case (Cons c t)
  with assms have "no_final_lf t" by (simp add: no_final_lf_tl)
  then show ?thesis
    by (auto simp: Cons plus_grouped_def rep_group split: option.splits)
qed

lemma re_match_phone:
  "no_final_lf s \<Longrightarrow> re_match phone_pattern s = phone_form s"
  unfolding phone_pattern_unfold phone_form_def
  using bare_digits_iff [of s] plus_grouped_iff [of s] by blast

text \<open>
  C5, as the claim states it, fails in both directions: a plus sign and nine digits are
  of the form the specification gives and are rejected, and a plus sign and fifteen
  digits are not of that form and are accepted. The pattern asks for 9 to 14 groups of a
  digit and then one digit more.
\<close>

theorem Phone_spec_form_counterexample:
  "spec_phone_form (ascii ''+123456789'') \<and>
   Phone (ascii ''+123456789'') = Inl (ValueError Phone_not_valid) \<and>
   \<not> spec_phone_form (ascii ''+123456789012345'') \<and>
   Phone (ascii ''+123456789012345'') = Inr (ascii ''+123456789012345'')"
  by code_simp

text \<open>
  C5, amended. For every string of code points below U+0660 that does not end in a line
  feed, the construction of a phone succeeds, keeping the string, if and only if the
  string is 9 or 10 digits, or a plus sign followed by 10 to 15 digits, each of which but
  the last may be followed by one white-space character or dash; every other such string
  fails with the validation error.
\<close>

theorem Phone_accepts_phone_form:
  assumes "no_final_lf s" and "below_660 s"
  shows "Phone s = (if phone_form s then Inr s else Inl (ValueError Phone_not_valid))"
  using assms(1) by (simp add: Phone_def re_match_phone)

theorem Phone_accepts_phone_form_witness:
  "no_final_lf (ascii ''+1 234-567 890'') \<and> below_660 (ascii ''+1 234-567 890'') \<and>
   phone_form (ascii ''+1 234-567 890'') \<and>
   Phone (ascii ''+1 234-567 890'') = Inr (ascii ''+1 234-567 890'') \<and>
   no_final_lf (ascii ''12345678'') \<and> below_660 (ascii ''12345678'') \<and>
   \<not> phone_form (ascii ''12345678'') \<and>
   Phone (ascii ''12345678'') = Inl (ValueError Phone_not_valid)"
proof -
  have a1: "no_final_lf (ascii ''+1 234-567 890'')" by code_simp
  have a2: "below_660 (ascii ''+1 234-567 890'')" by code_simp
  have a3: "phone_form (ascii ''+1 234-567 890'')" by code_simp
  have b1: "no_final_lf (ascii ''12345678'')" by code_simp
  have b2: "below_660 (ascii ''12345678'')" by code_simp
  have b3: "\<not> phone_form (ascii ''12345678'')" by code_simp
  have a4: "Phone (ascii ''+1 234-567 890'') = Inr (ascii ''+1 234-567 890'')"
    using Phone_accepts_phone_form [OF a1 a2] a3 by simp
  have b4: "Phone (ascii ''12345678'') = Inl (ValueError Phone_not_valid)"
    using Phone_accepts_phone_form [OF b1 b2] b3 by simp
  show ?thesis
    by (intro conjI) (fact a1 a2 a3 a4 b1 b2 b3 b4)+
qed


section \<open>Adding a record\<close>

lemma add_record_has_key:
  "has_key d nm \<Longrightarrow> add_record nm d = (Some (KeyError Record_exists), d)"
  by (simp add: add_record_def)

lemma add_record_valid:
  "\<not> has_key d nm \<Longrightarrow> re_match name_value_pattern nm \<Longrightarrow>
   add_record nm d =
     (None, d @ [(nm, \<lparr>name = nm, phones = [], birthday = None, email = None\<rparr>)])"
  by (simp add: add_record_def new_Record_def Name_def has_key_def dict_set_new)

lemma add_record_invalid:
  "\<not> has_key d nm \<Longrightarrow> \<not> re_match name_value_pattern nm \<Longrightarrow>
   add_record nm d = (Some (ValueError Name_not_valid), d)"
  by (simp add: add_record_def new_Record_def Name_def)

lemma add_record_twice:
  assumes "distinct (map fst d)" and "re_match name_value_pattern nm"
  shows "add_record nm (snd (add_record nm d)) =
      (Some (KeyError Record_exists), snd (add_record nm d)) \<and>
    length (filter (\<lambda>kv. fst kv = nm) (snd (add_record nm d))) = 1"
proof (cases "has_key d nm")
  case True
  with assms(1) show ?thesis
    by (simp add: add_record_has_key count_key_present has_key_def)
next
  case False
  with assms(2) show ?thesis
    by (simp add: add_record_valid add_record_has_key has_key_def count_key_absent)
qed

text \<open>
  C9, as the claim states it, fails on a name that is not a key and not a valid name:
  nothing is stored under it, and the error is the one of the name's validation.
\<close>

theorem add_record_invalid_name_counterexample:
  "\<not> has_key ([] :: AddressBook) (ascii ''A1'') \<and>
   add_record (ascii ''A1'') [] = (Some (ValueError Name_not_valid), [])"
  by code_simp

text \<open>
  C9, amended. For every book (a dictionary: its keys are distinct) and every name that
  does not end in a line feed: \<open>add_record\<close> fails with the duplicate-key error when the
  name is a key; when it is not a key and is a valid name, that is 2 to 25 letters of the
  set of the name pattern, it stores a new empty record under the name, after the records
  that are there; when it is not a key and not a valid name, it fails with the validation
  error and stores nothing. Adding a valid name twice makes the second call fail with
  the duplicate-key error, and the book then holds exactly one record under that name.
\<close>

theorem add_record_cases:
  assumes "distinct (map fst d)" and "no_final_lf nm"
  shows "(has_key d nm \<longrightarrow> add_record nm d = (Some (KeyError Record_exists), d)) \<and>
   (\<not> has_key d nm \<and> name_form nm \<longrightarrow>
      add_record nm d =
        (None, d @ [(nm, \<lparr>name = nm, phones = [], birthday = None, email = None\<rparr>)])) \<and>
   (\<not> has_key d nm \<and> \<not> name_form nm \<longrightarrow>
      add_record nm d = (Some (ValueError Name_not_valid), d)) \<and>
   (name_form nm \<longrightarrow>
      add_record nm (snd (add_record nm d)) =
        (Some (KeyError Record_exists), snd (add_record nm d)) \<and>
      length (filter (\<lambda>kv. fst kv = nm) (snd (add_record nm d))) = 1)"
proof -
  note v = re_match_name_form [OF assms(2)]
  have a: "has_key d nm \<Longrightarrow> add_record nm d = (Some (KeyError Record_exists), d)"
    by (rule add_record_has_key)
  have b: "\<not> has_key d nm \<Longrightarrow> name_form nm \<Longrightarrow> add_record nm d =
      (None, d @ [(nm, \<lparr>name = nm, phones = [], birthday = None, email = None\<rparr>)])"
    using v by (simp add: add_record_valid)
  have c: "\<not> has_key d nm \<Longrightarrow> \<not> name_form nm \<Longrightarrow>
      add_record nm d = (Some (ValueError Name_not_valid), d)"
    using v by (simp add: add_record_invalid)
  have e: "name_form nm \<Longrightarrow>
      add_record nm (snd (add_record nm d)) =
        (Some (KeyError Record_exists), snd (add_record nm d)) \<and>
      length (filter (\<lambda>kv. fst kv = nm) (snd (add_record nm d))) = 1"
    using v add_record_twice [OF assms(1), of nm] by simp
  from a b c e show ?thesis by blast
qed

theorem add_record_cases_witness:
  "distinct (map fst example_book) \<and> no_final_lf (ascii ''Alexander'') \<and>
   has_key example_book (ascii ''Alexander'') \<and>
   add_record (ascii ''Alexander'') example_book =
     (Some (KeyError Record_exists), example_book) \<and>
   no_final_lf (ascii ''Alex'') \<and>
   \<not> has_key ([] :: AddressBook) (ascii ''Alex'') \<and> name_form (ascii ''Alex'') \<and>
   add_record (ascii ''Alex'') [] =
     (None, [(ascii ''Alex'',
        \<lparr>name = ascii ''Alex'', phones = [], birthday = None, email = None\<rparr>)]) \<and>
   add_record (ascii ''Alex'') (snd (add_record (ascii ''Alex'') [])) =
     (Some (KeyError Record_exists), snd (add_record (ascii ''Alex'') [])) \<and>
   length (filter (\<lambda>kv. fst kv = ascii ''Alex'') (snd (add_record (ascii ''Alex'') []))) = 1 \<and>
   no_final_lf (ascii ''A1'') \<and> \<not> name_form (ascii ''A1'') \<and>
   add_record (ascii ''A1'') [] = (Some (ValueError Name_not_valid), [])"
proof -
  have h1: "distinct (map fst example_book)" by code_simp
  have h2: "has_key example_book (ascii ''Alexander'')" by code_simp
  have h3: "distinct (map fst ([] :: AddressBook))" by simp
  have h4: "\<not> has_key ([] :: AddressBook) (ascii ''Alex'')" by code_simp
  have h5: "name_form (ascii ''Alex'')" by code_simp
  have h6: "\<not> has_key ([] :: AddressBook) (ascii ''A1'')" by code_simp
  have h7: "\<not> name_form (ascii ''A1'')" by code_simp
  have n1: "no_final_lf (ascii ''Alexander'')" by code_simp
  have n2: "no_final_lf (ascii ''Alex'')" by code_simp
  have n3: "no_final_lf (ascii ''A1'')" by code_simp
  have c1: "add_record (ascii ''Alexander'') example_book =
      (Some (KeyError Record_exists), example_book)"
    using add_record_cases [OF h1 n1] h2 by blast
  have c2: "add_record (ascii ''Alex'') [] =
     (None, [(ascii ''Alex'',
        \<lparr>name = ascii ''Alex'', phones = [], birthday = None, email = None\<rparr>)])"
    using add_record_cases [OF h3 n2] h4 h5 by simp
  have c3: "add_record (ascii ''Alex'') (snd (add_record (ascii ''Alex'') [])) =
     (Some (KeyError Record_exists), snd (add_record (ascii ''Alex'') []))"
    using add_record_cases [OF h3 n2] h5 by blast
  have c4: "length (filter (\<lambda>kv. fst kv = ascii ''Alex'')
      (snd (add_record (ascii ''Alex'') []))) = 1"
    using add_record_cases [OF h3 n2] h5 by blast
  have c5: "add_record (ascii ''A1'') [] = (Some (ValueError Name_not_valid), [])"
    using add_record_cases [OF h3 n3] h6 h7 by blast
  show ?thesis
    by (intro conjI) (fact h1 h2 h4 h5 h7 n1 n2 n3 c1 c2 c3 c4 c5)+
qed


section \<open>Days to the birthday\<close>

lemma div_step:
  fixes y k :: int
  assumes "0 < k"
  shows "y div k = (y - 1) div k + (if y mod k = 0 then 1 else 0)"
proof (cases "y mod k = 0")
  case True
  have "y - 1 = k * (y div k - 1) + (k - 1)"
    using True by (simp add: algebra_simps) (metis mult.commute mult_div_mod_eq add.right_neutral)
  then have "(y - 1) div k = y div k - 1"
    using assms by (intro int_div_pos_eq [where r = "k - 1"]) auto
  with True show ?thesis by simp
next
  case False
  have "0 \<le> y mod k" "y mod k < k" using assms by simp_all
  with False have r: "0 \<le> y mod k - 1" "y mod k - 1 < k" by linarith+
  have "y - 1 = k * (y div k) + (y mod k - 1)"
    by (simp add: algebra_simps)
  then have "(y - 1) div k = y div k"
    using r by (intro int_div_pos_eq [where r = "y mod k - 1"]) auto
  with False show ?thesis by simp
qed

lemma mod_400_100: "(y::int) mod 400 = 0 \<Longrightarrow> y mod 100 = 0"
proof -
  assume "y mod 400 = 0"
  moreover have "y mod 100 = (y mod 400) mod 100" by (simp add: mod_mod_cancel)
  ultimately show ?thesis by simp
qed

lemma mod_100_4: "(y::int) mod 100 = 0 \<Longrightarrow> y mod 4 = 0"
proof -
  assume "y mod 100 = 0"
  moreover have "y mod 4 = (y mod 100) mod 4" by (simp add: mod_mod_cancel)
  ultimately show ?thesis by simp
qed

lemma days_before_year_step:
  "days_before_year (y + 1) = days_before_year y + 365 + (if is_leap y then 1 else 0)"
proof -
  have d: "days_before_year (y + 1) - days_before_year y =
      365 + (y div 4 - (y - 1) div 4) - (y div 100 - (y - 1) div 100)
        + (y div 400 - (y - 1) div 400)"
    by (simp add: days_before_year_def)
  have a: "y div 4 - (y - 1) div 4 = (if y mod 4 = 0 then 1 else 0)"
    using div_step [of 4 y] by simp
  have b: "y div 100 - (y - 1) div 100 = (if y mod 100 = 0 then 1 else 0)"
    using div_step [of 100 y] by simp
  have c: "y div 400 - (y - 1) div 400 = (if y mod 400 = 0 then 1 else 0)"
    using div_step [of 400 y] by simp
  have key: "(p400 \<longrightarrow> p100) \<Longrightarrow> (p100 \<longrightarrow> p4) \<Longrightarrow>
      (365::int) + (if p4 then 1 else 0) - (if p100 then 1 else 0) + (if p400 then 1 else 0) =
      365 + (if p4 \<and> (\<not> p100 \<or> p400) then 1 else 0)" for p4 p100 p400
    by (cases p4; cases p100; cases p400; simp)
  have "days_before_year (y + 1) - days_before_year y = 365 + (if is_leap y then 1 else 0)"
    unfolding d a b c is_leap_def
  proof (rule key)
    show "y mod 400 = 0 \<longrightarrow> y mod 100 = 0" using mod_400_100 by (rule impI)
    show "y mod 100 = 0 \<longrightarrow> y mod 4 = 0" using mod_100_4 by (rule impI)
  qed
  then show ?thesis by simp
qed

lemma days_before_year_mono: "y \<le> y' \<Longrightarrow> days_before_year y \<le> days_before_year y'"
proof (induction y' rule: int_ge_induct)
  case base
  show ?case by simp
next
  case (step i)
  then show ?case using days_before_year_step [of i] by (simp split: if_splits)
qed

lemma days_before_month_step:
  assumes "1 \<le> m" "m < 12"
  shows "days_before_month y (m + 1) = days_before_month y m + days_in_month y m"
proof -
  from assms have "m = 1 \<or> m = 2 \<or> m = 3 \<or> m = 4 \<or> m = 5 \<or> m = 6 \<or> m = 7 \<or> m = 8 \<or>
      m = 9 \<or> m = 10 \<or> m = 11" by arith
  then show ?thesis
    by (elim disjE) (simp_all add: days_before_month_def days_in_month_def month_offsets_def)
qed

lemma days_in_month_pos: "0 < days_in_month y m"
  by (simp add: days_in_month_def)

lemma days_before_month_mono:
  "m \<le> m' \<Longrightarrow> 1 \<le> m \<Longrightarrow> m' \<le> 12 \<Longrightarrow> days_before_month y m \<le> days_before_month y m'"
proof (induction m' rule: int_ge_induct)
  case base
  show ?case by simp
next
  case (step i)
  then show ?case
    using days_before_month_step [of i y] days_in_month_pos [of y i] by simp
qed

lemma days_before_month_nonneg:
  "1 \<le> m \<Longrightarrow> m \<le> 12 \<Longrightarrow> 0 \<le> days_before_month y m"
  using days_before_month_mono [of 1 m y]
  by (simp add: days_before_month_def month_offsets_def)

lemma days_before_month_end:
  "days_before_month y 12 + days_in_month y 12 = 365 + (if is_leap y then 1 else 0)"
  by (simp add: days_before_month_def days_in_month_def month_offsets_def)

lemma within_year:
  assumes "valid_date d"
  shows "days_before_month (year d) (month d) + day d \<le>
    365 + (if is_leap (year d) then 1 else 0)"
proof -
  from assms have m: "1 \<le> month d" "month d \<le> 12"
    and d: "day d \<le> days_in_month (year d) (month d)"
    by (simp_all add: valid_date_def)
  show ?thesis
  proof (cases "month d = 12")
    case True
    with d days_before_month_end [of "year d"] show ?thesis by simp
  next
    case False
    with m have lt: "month d < 12" by simp
    have "days_before_month (year d) (month d) + day d \<le> days_before_month (year d) (month d + 1)"
      using d days_before_month_step [OF m(1) lt, of "year d"] by simp
    also have "\<dots> \<le> days_before_month (year d) 12"
      using m lt by (intro days_before_month_mono) simp_all
    also have "\<dots> \<le> 365 + (if is_leap (year d) then 1 else 0)"
      using days_before_month_end [of "year d"] days_in_month_pos [of "year d" 12] by linarith
    finally show ?thesis .
  qed
qed

lemma toordinal_strict_mono:
  assumes a: "valid_date a" and b: "valid_date b" and lt: "date_lt a b"
  shows "toordinal a < toordinal b"
proof -
  from b have mb: "1 \<le> month b" "month b \<le> 12" and db: "1 \<le> day b"
    by (simp_all add: valid_date_def)
  from a have ma: "1 \<le> month a" "month a \<le> 12"
    and da: "day a \<le> days_in_month (year a) (month a)"
    by (simp_all add: valid_date_def)
  consider (y) "year a < year b"
    | (m) "year a = year b" "month a < month b"
    | (d) "year a = year b" "month a = month b" "day a < day b"
    using lt by (auto simp: date_lt_def)
  then show ?thesis
  proof cases
    case y
    have "toordinal a \<le> days_before_year (year a + 1)"
      using within_year [OF a] days_before_year_step [of "year a"]
      by (simp add: toordinal_def)
    also have "\<dots> \<le> days_before_year (year b)"
      using y by (intro days_before_year_mono) simp
    also have "\<dots> < toordinal b"
      using days_before_month_nonneg [OF mb, of "year b"] db by (simp add: toordinal_def)
    finally show ?thesis .
  next
    case m
    then have lt12: "month a < 12" using mb by simp
    have "days_before_month (year a) (month a) + day a \<le>
        days_before_month (year a) (month a + 1)"
      using da days_before_month_step [OF ma(1) lt12, of "year a"] by simp
    also have "\<dots> \<le> days_before_month (year a) (month b)"
      using m ma mb by (intro days_before_month_mono) simp_all
    finally show ?thesis using m db by (simp add: toordinal_def)
  next
    case d
    then show ?thesis by (simp add: toordinal_def)
  qed
qed

lemma replace_year_ok:
  assumes "valid_date b" and "\<not> (month b = 2 \<and> day b = 29)" and "1 \<le> y" and "y \<le> 9999"
  shows "replace_year b y = Inr (Date y (month b) (day b))"
proof -
  have "day b \<le> days_in_month y (month b)"
    using assms(1,2) by (auto simp: valid_date_def days_in_month_def split: if_splits)
  with assms show ?thesis
    by (simp add: replace_year_def mk_date_def valid_date_def)
qed

lemma replace_year_valid:
  assumes "valid_date b" and "\<not> (month b = 2 \<and> day b = 29)" and "1 \<le> y" and "y \<le> 9999"
  shows "valid_date (Date y (month b) (day b))"
  using assms by (auto simp: valid_date_def days_in_month_def split: if_splits)

lemma date_le_refl: "date_le a a"
  by (simp add: date_le_def)

lemma date_lt_or_le: "date_lt a b \<or> date_le b a"
  by (cases a; cases b) (auto simp: date_lt_def date_le_def)

lemma days_to_birthday_unset: "birthday r = None \<Longrightarrow> days_to_birthday today r = Inr None"
  by (simp add: days_to_birthday_def)

lemma days_to_birthday_set:
  assumes r: "birthday r = Some b"
    and vb: "valid_date b" and vt: "valid_date today"
    and nf: "\<not> (month b = 2 \<and> day b = 29)"
    and rep: "year today < 9999 \<or> \<not> date_lt (Date (year today) (month b) (day b)) today"
  shows "\<exists>nxt. days_to_birthday today r = Inr (Some (toordinal nxt - toordinal today)) \<and>
      valid_date nxt \<and> month nxt = month b \<and> day nxt = day b \<and> date_le today nxt \<and>
      (\<forall>x. valid_date x \<and> month x = month b \<and> day x = day b \<and> date_le today x \<longrightarrow>
           date_le nxt x) \<and>
      0 \<le> toordinal nxt - toordinal today \<and>
      ((toordinal nxt - toordinal today = 0) = (month today = month b \<and> day today = day b)) \<and>
      year nxt = (if date_lt (Date (year today) (month b) (day b)) today
                  then year today + 1 else year today)"
proof -
  let ?cur = "Date (year today) (month b) (day b)"
  let ?nxy = "Date (year today + 1) (month b) (day b)"
  from vt have yt: "1 \<le> year today" "year today \<le> 9999"
    by (simp_all add: valid_date_def)
  have this_ok: "replace_year b (year today) = Inr ?cur"
    using vb nf yt by (rule replace_year_ok)
  have this_valid: "valid_date ?cur"
    using vb nf yt by (rule replace_year_valid)
  define nxt where "nxt = (if date_lt ?cur today then ?nxy else ?cur)"
  have res: "days_to_birthday today r = Inr (Some (toordinal nxt - toordinal today))"
  proof (cases "date_lt ?cur today")
    case True
    with rep have "year today + 1 \<le> 9999" by simp
    with vb nf yt have "replace_year b (year today + 1) = Inr ?nxy"
      by (intro replace_year_ok) simp_all
    with True this_ok r show ?thesis
      by (simp add: days_to_birthday_def nxt_def)
  next
    case False
    with this_ok r show ?thesis
      by (simp add: days_to_birthday_def nxt_def)
  qed
  have valid: "valid_date nxt"
  proof (cases "date_lt ?cur today")
    case True
    with rep have "year today + 1 \<le> 9999" by simp
    with vb nf yt have "valid_date ?nxy" by (intro replace_year_valid) simp_all
    with True show ?thesis by (simp add: nxt_def)
  next
    case False
    with this_valid show ?thesis by (simp add: nxt_def)
  qed
  have md: "month nxt = month b" "day nxt = day b"
    by (simp_all add: nxt_def)
  have le: "date_le today nxt"
    by (cases today) (auto simp: nxt_def date_le_def date_lt_def)
  have least: "date_le nxt x"
    if "valid_date x" "month x = month b" "day x = day b" "date_le today x" for x
    using that by (cases x; cases today) (auto simp: nxt_def date_le_def date_lt_def)
  have nonneg: "0 \<le> toordinal nxt - toordinal today"
    using le toordinal_strict_mono [OF vt valid] by (auto simp: date_le_def)
  have zero: "(toordinal nxt - toordinal today = 0) = (month today = month b \<and> day today = day b)"
  proof
    assume "toordinal nxt - toordinal today = 0"
    with le toordinal_strict_mono [OF vt valid] have "today = nxt"
      by (auto simp: date_le_def)
    with md show "month today = month b \<and> day today = day b" by simp
  next
    assume "month today = month b \<and> day today = day b"
    then have "nxt = today"
      by (cases today) (auto simp: nxt_def date_lt_def)
    then show "toordinal nxt - toordinal today = 0" by simp
  qed
  have yr: "year nxt = (if date_lt ?cur today then year today + 1 else year today)"
    by (simp add: nxt_def)
  from res valid md le least nonneg zero yr show ?thesis by blast
qed

text \<open>
  C8, as the claim states it, fails on the last day of the year 9999: the birthday of the
  example has passed in that year, the next one would be in the year 10000, which no date
  can hold, and the call raises.
\<close>

theorem days_to_birthday_last_year_counterexample:
  "valid_date (Date 9999 12 31) \<and>
   birthday example_record = Some (Date 2022 9 30) \<and>
   days_to_birthday (Date 9999 12 31) example_record = Inl (ValueError (Year_range 10000))"
  by code_simp

text \<open>
  C8, amended. For every record and every date \<open>today\<close>: when no birthday is set,
  \<open>days_to_birthday\<close> returns the absent value. When a birthday (a date) is set whose
  month and day are not 29 February, and unless \<open>today\<close> lies in the year 9999 after that
  year's birthday, it returns the number of days from \<open>today\<close> to the next occurrence of
  the birthday's month and day, which is the earliest date not before \<open>today\<close> with that
  month and day: the count is not negative, it is 0 exactly when \<open>today\<close> has that month
  and day, and the occurrence is next year's exactly when this year's has passed.
\<close>

theorem days_to_birthday_next_occurrence:
  "(birthday r = None \<longrightarrow> days_to_birthday today r = Inr None) \<and>
   (birthday r = Some b \<and> valid_date b \<and> valid_date today \<and>
    \<not> (month b = 2 \<and> day b = 29) \<and>
    (year today < 9999 \<or> \<not> date_lt (Date (year today) (month b) (day b)) today) \<longrightarrow>
    (\<exists>nxt. days_to_birthday today r = Inr (Some (toordinal nxt - toordinal today)) \<and>
      valid_date nxt \<and> month nxt = month b \<and> day nxt = day b \<and> date_le today nxt \<and>
      (\<forall>x. valid_date x \<and> month x = month b \<and> day x = day b \<and> date_le today x \<longrightarrow>
           date_le nxt x) \<and>
      0 \<le> toordinal nxt - toordinal today \<and>
      ((toordinal nxt - toordinal today = 0) = (month today = month b \<and> day today = day b)) \<and>
      year nxt = (if date_lt (Date (year today) (month b) (day b)) today
                  then year today + 1 else year today)))"
proof (intro conjI impI)
  assume "birthday r = None"
  then show "days_to_birthday today r = Inr None" by (rule days_to_birthday_unset)
next
  assume a: "birthday r = Some b \<and> valid_date b \<and> valid_date today \<and>
    \<not> (month b = 2 \<and> day b = 29) \<and>
    (year today < 9999 \<or> \<not> date_lt (Date (year today) (month b) (day b)) today)"
  show "\<exists>nxt. days_to_birthday today r = Inr (Some (toordinal nxt - toordinal today)) \<and>
      valid_date nxt \<and> month nxt = month b \<and> day nxt = day b \<and> date_le today nxt \<and>
      (\<forall>x. valid_date x \<and> month x = month b \<and> day x = day b \<and> date_le today x \<longrightarrow>
           date_le nxt x) \<and>
      0 \<le> toordinal nxt - toordinal today \<and>
      ((toordinal nxt - toordinal today = 0) = (month today = month b \<and> day today = day b)) \<and>
      year nxt = (if date_lt (Date (year today) (month b) (day b)) today
                  then year today + 1 else year today)"
    by (rule days_to_birthday_set) (use a in blast)+
qed

theorem days_to_birthday_next_occurrence_witness:
  "birthday (del_birthday example_record) = None \<and>
   days_to_birthday (Date 2026 11 3) (del_birthday example_record) = Inr None \<and>
   birthday example_record = Some (Date 2022 9 30) \<and>
   valid_date (Date 2022 9 30) \<and> valid_date (Date 2026 11 3) \<and>
   (\<exists>nxt. days_to_birthday (Date 2026 11 3) example_record =
        Inr (Some (toordinal nxt - toordinal (Date 2026 11 3))) \<and>
      valid_date nxt \<and> month nxt = 9 \<and> day nxt = 30 \<and> date_le (Date 2026 11 3) nxt \<and>
      year nxt = 2027)"
proof -
  have h0: "birthday (del_birthday example_record) = None" by code_simp
  have h1: "birthday example_record = Some (Date 2022 9 30)" by code_simp
  have h2: "valid_date (Date 2022 9 30)" by code_simp
  have h3: "valid_date (Date 2026 11 3)" by code_simp
  have h4: "date_lt (Date 2026 9 30) (Date 2026 11 3)" by code_simp
  have c0: "days_to_birthday (Date 2026 11 3) (del_birthday example_record) = Inr None"
    using days_to_birthday_next_occurrence
      [of "del_birthday example_record" "Date 2026 11 3"] h0
    by blast
  have c1: "\<exists>nxt. days_to_birthday (Date 2026 11 3) example_record =
        Inr (Some (toordinal nxt - toordinal (Date 2026 11 3))) \<and>
      valid_date nxt \<and> month nxt = 9 \<and> day nxt = 30 \<and> date_le (Date 2026 11 3) nxt \<and>
      year nxt = 2027"
    using days_to_birthday_next_occurrence
      [of example_record "Date 2026 11 3" "Date 2022 9 30"] h1 h2 h3 h4
    by auto
  show ?thesis
    by (intro conjI) (fact h0 h1 h2 h3 c0 c1)+
qed

end
